theory Spec2Isabelle
  imports Complex_Main
begin

section \<open>The token ring of charm.py\<close>

text \<open>
  A shallow embedding of \<^verbatim>\<open>src/charm.py\<close>: the three handlers of
  \<^verbatim>\<open>FeedAndSyncCharm\<close> as functions on an explicit charm state.

  Conventions of the model:
  \<^item> Python's unbounded integers are \<^typ>\<open>int\<close>.
  \<^item> Python's floats (the two time fields, the delay, the clock) are finite doubles, kept
    as the \<^typ>\<open>real\<close> numbers they denote: no NaN, no infinity. Comparisons of doubles
    are exact. Their addition and subtraction round, and are parameters of the model
    (\<open>float_add\<close> and \<open>float_sub\<close> below), so that nothing proved here rests on exact
    arithmetic.
  \<^item> The value of \<^verbatim>\<open>time.time()\<close> is an argument \<open>now\<close> of the handler that reads it.
  \<^item> A handler that raises returns \<open>Inl (e, s)\<close>: the exception and the state
    the handler had reached when it was raised, so that writes made before the
    exception stay visible.
  \<^item> The calls of \<^verbatim>\<open>logger.info\<close> are left out; they touch nothing the handlers read.
\<close>

subsection \<open>Relation data and the typed bucket (lines 32-40)\<close>

text \<open>
  The relation data of one unit: one entry per key of \<^verbatim>\<open>FeedAndSyncInterface\<close>,
  \<open>None\<close> when the key is absent. Values are kept decoded; the codecs are not modelled.
\<close>

record unit_data =
  k_message :: "string option"
  k_origin :: "string option"
  k_next_holder :: "string option"
  k_cycles_complete :: "int option"
  k_times_passed :: "int option"
  k_times_received :: "int option"
  k_time_elapsed :: "real option"
  k_timestamp :: "real option"

text \<open>Reading a \<^verbatim>\<open>Value\<close> attribute: the entry, or the default of the declaration.\<close>

definition message :: "unit_data \<Rightarrow> string" where
  "message d = (case k_message d of None \<Rightarrow> [] | Some v \<Rightarrow> v)"

definition origin :: "unit_data \<Rightarrow> string" where
  "origin d = (case k_origin d of None \<Rightarrow> [] | Some v \<Rightarrow> v)"

definition next_holder :: "unit_data \<Rightarrow> string" where
  "next_holder d = (case k_next_holder d of None \<Rightarrow> [] | Some v \<Rightarrow> v)"

definition cycles_complete :: "unit_data \<Rightarrow> int" where
  "cycles_complete d = (case k_cycles_complete d of None \<Rightarrow> 0 | Some v \<Rightarrow> v)"

definition times_passed :: "unit_data \<Rightarrow> int" where
  "times_passed d = (case k_times_passed d of None \<Rightarrow> 0 | Some v \<Rightarrow> v)"

definition times_received :: "unit_data \<Rightarrow> int" where
  "times_received d = (case k_times_received d of None \<Rightarrow> 0 | Some v \<Rightarrow> v)"

definition time_elapsed :: "unit_data \<Rightarrow> real" where
  "time_elapsed d = (case k_time_elapsed d of None \<Rightarrow> 0 | Some v \<Rightarrow> v)"

definition timestamp :: "unit_data \<Rightarrow> real" where
  "timestamp d = (case k_timestamp d of None \<Rightarrow> 0 | Some v \<Rightarrow> v)"

text \<open>
  Modelled from the spec: \<^verbatim>\<open>checker.IntegerRange\<close> of the \<^verbatim>\<open>hpctlib\<close> library, which is
  not part of the sources. The spec gives the integer fields of the bucket as
  "integer \<open>\<ge>\<close> 0" and says "The collaborator validates ranges and rejects out-of-range
  writes". The bounds are inclusive; a bound \<open>None\<close> is no bound.
\<close>

definition IntegerRange :: "int option \<Rightarrow> int option \<Rightarrow> int \<Rightarrow> bool" where
  "IntegerRange lo hi v =
     ((case lo of None \<Rightarrow> True | Some l \<Rightarrow> l \<le> v) \<and> (case hi of None \<Rightarrow> True | Some h \<Rightarrow> v \<le> h))"

text \<open>
  Modelled from the spec: \<^verbatim>\<open>checker.FloatRange\<close> of the \<^verbatim>\<open>hpctlib\<close> library, in the same
  way: the spec gives \<open>time_elapsed\<close> as "float \<open>\<ge>\<close> 0.0".
\<close>

definition FloatRange :: "real option \<Rightarrow> real option \<Rightarrow> real \<Rightarrow> bool" where
  "FloatRange lo hi v =
     ((case lo of None \<Rightarrow> True | Some l \<Rightarrow> l \<le> v) \<and> (case hi of None \<Rightarrow> True | Some h \<Rightarrow> v \<le> h))"

subsection \<open>The charm: environment, state, effects\<close>

text \<open>A unit of a relation, as the handlers look at it: \<^verbatim>\<open>u.name\<close> and \<^verbatim>\<open>u.app\<close>.\<close>

record unit_ref =
  u_name :: string
  u_app :: string

text \<open>
  What the handlers read and never write: \<^verbatim>\<open>self.unit.name\<close>, \<^verbatim>\<open>self.app\<close>,
  the result of \<^verbatim>\<open>self.model.get_relation("ping-send")\<close> (\<open>None\<close>, or the units of the
  relation in the order the comprehension iterates over them), and the two configuration
  values \<^verbatim>\<open>self.config.get("max-cycles")\<close> and \<^verbatim>\<open>self.config.get("delay")\<close>.
  With them, the arithmetic of the interpreter the charm runs on: \<open>float_add\<close> and
  \<open>float_sub\<close> are Python's \<^verbatim>\<open>+\<close> and \<^verbatim>\<open>-\<close> on floats.
\<close>

record env =
  unit_name :: string
  app_name :: string
  ping_send :: "unit_ref list option"
  config_max_cycles :: "int option"
  config_delay :: real
  float_add :: "real \<Rightarrow> real \<Rightarrow> real"
  float_sub :: "real \<Rightarrow> real \<Rightarrow> real"

text \<open>
  A status message is kept as the parts of its f-string: the literal text and the
  formatted fields, each with its format (\<^verbatim>\<open>{x}\<close> of a string, an integer or a float,
  and \<^verbatim>\<open>{x:.2f}\<close>). Rendering a field to characters is Python's own \<^verbatim>\<open>format\<close>.
\<close>

datatype fpart =
    Lit string
  | FmtStr string
  | FmtInt int
  | FmtFloat real
  | FmtFloat2f real

datatype status =
    ActiveStatus "fpart list"
  | BlockedStatus "fpart list"
  | MaintenanceStatus "fpart list"
  | WaitingStatus "fpart list"
  | UnknownStatus

text \<open>The effects a handler has on the outside, besides its bucket: in order of occurrence.\<close>

datatype effect = StatusSet status | Sleep real

text \<open>\<^verbatim>\<open>self._stored.bucket\<close>, a dictionary with the two keys of lines 46-47.\<close>

record storage =
  max_cycles :: "int option"
  delay :: real

record charm_state =
  stored :: storage
  send_bucket :: unit_data
  status :: status
  trace :: "effect list"

datatype error = IndexError | AttributeError | ValueRejected

type_synonym result = "(error \<times> charm_state) + charm_state"

text \<open>\<^verbatim>\<open>set_default\<close> of lines 65-67.\<close>

definition default_storage :: storage where
  "default_storage = \<lparr>max_cycles = None, delay = 0\<rparr>"

text \<open>\<^verbatim>\<open>self.unit.status = st\<close>\<close>

definition set_status :: "status \<Rightarrow> charm_state \<Rightarrow> charm_state" where
  "set_status st s = s\<lparr>status := st, trace := trace s @ [StatusSet st]\<rparr>"

text \<open>\<^verbatim>\<open>if (delay := self._stored.bucket[self._DELAY_KEY]) > 0: time.sleep(delay)\<close>\<close>

definition sleep_delay :: "charm_state \<Rightarrow> charm_state" where
  "sleep_delay s =
     (if delay (stored s) > 0 then s\<lparr>trace := trace s @ [Sleep (delay (stored s))]\<rparr> else s)"

text \<open>
  Modelled from the spec: the assignment to an attribute of a bucket, \<^verbatim>\<open>Value.__set__\<close> of
  the \<^verbatim>\<open>hpctlib\<close> library, which is not part of the sources. After the spec's "validates
  ranges and rejects out-of-range writes": the checker of the declaration (lines 36-40)
  decides; an accepted write stores the value under its key, a rejected write raises and
  leaves the bucket as it was.
\<close>

definition checked_write ::
  "bool \<Rightarrow> (unit_data \<Rightarrow> unit_data) \<Rightarrow> charm_state \<Rightarrow> result" where
  "checked_write ok upd s =
     (if ok then Inr (s\<lparr>send_bucket := upd (send_bucket s)\<rparr>) else Inl (ValueRejected, s))"

definition set_message :: "string \<Rightarrow> charm_state \<Rightarrow> result" where
  "set_message v = checked_write True (\<lambda>d. d\<lparr>k_message := Some v\<rparr>)"

definition set_origin :: "string \<Rightarrow> charm_state \<Rightarrow> result" where
  "set_origin v = checked_write True (\<lambda>d. d\<lparr>k_origin := Some v\<rparr>)"

definition set_next_holder :: "string \<Rightarrow> charm_state \<Rightarrow> result" where
  "set_next_holder v = checked_write True (\<lambda>d. d\<lparr>k_next_holder := Some v\<rparr>)"

definition set_cycles_complete :: "int \<Rightarrow> charm_state \<Rightarrow> result" where
  "set_cycles_complete v =
     checked_write (IntegerRange (Some 0) None v) (\<lambda>d. d\<lparr>k_cycles_complete := Some v\<rparr>)"

definition set_times_passed :: "int \<Rightarrow> charm_state \<Rightarrow> result" where
  "set_times_passed v =
     checked_write (IntegerRange (Some 0) None v) (\<lambda>d. d\<lparr>k_times_passed := Some v\<rparr>)"

definition set_times_received :: "int \<Rightarrow> charm_state \<Rightarrow> result" where
  "set_times_received v =
     checked_write (IntegerRange (Some 0) None v) (\<lambda>d. d\<lparr>k_times_received := Some v\<rparr>)"

definition set_time_elapsed :: "real \<Rightarrow> charm_state \<Rightarrow> result" where
  "set_time_elapsed v =
     checked_write (FloatRange (Some 0) None v) (\<lambda>d. d\<lparr>k_time_elapsed := Some v\<rparr>)"

definition set_timestamp :: "real \<Rightarrow> charm_state \<Rightarrow> result" where
  "set_timestamp v =
     checked_write (FloatRange (Some 0) None v) (\<lambda>d. d\<lparr>k_timestamp := Some v\<rparr>)"

text \<open>A block of statements: each runs on the state the one before left; the first that raises ends the block.\<close>

fun run :: "(charm_state \<Rightarrow> result) list \<Rightarrow> charm_state \<Rightarrow> result" where
  "run [] s = Inr s"
| "run (f # fs) s = (case f s of Inl e \<Rightarrow> Inl e | Inr s' \<Rightarrow> run fs s')"

text \<open>
  \<^verbatim>\<open>r = self.model.get_relation("ping-send")\<close> and
  \<^verbatim>\<open>target = [u.name for u in r.units if u.app is not self.app]\<close>:
  \<^verbatim>\<open>r.units\<close> raises AttributeError when there is no such relation.
\<close>

definition target :: "env \<Rightarrow> charm_state \<Rightarrow> (error \<times> charm_state) + string list" where
  "target e s =
     (case ping_send e of
        None \<Rightarrow> Inl (AttributeError, s)
      | Some us \<Rightarrow> Inr (map u_name (filter (\<lambda>u. u_app u \<noteq> app_name e) us)))"

text \<open>\<^verbatim>\<open>send_bucket.next_holder = target[0]\<close>: IndexError on the empty list.\<close>

definition set_next_holder_target0 :: "string list \<Rightarrow> charm_state \<Rightarrow> result" where
  "set_next_holder_target0 tgt s =
     (case tgt of [] \<Rightarrow> Inl (IndexError, s) | t # _ \<Rightarrow> set_next_holder t s)"

subsection \<open>The handlers\<close>

text \<open>\<^verbatim>\<open>_on_config_changed\<close>, lines 69-79.\<close>

definition on_config_changed :: "env \<Rightarrow> charm_state \<Rightarrow> charm_state" where
  "on_config_changed e s =
     (let s1 = (if config_max_cycles e \<noteq> max_cycles (stored s)
                then s\<lparr>stored := (stored s)\<lparr>max_cycles := config_max_cycles e\<rparr>\<rparr> else s)
      in if config_delay e \<noteq> delay (stored s1)
         then s1\<lparr>stored := (stored s1)\<lparr>delay := config_delay e\<rparr>\<rparr> else s1)"

text \<open>The two status messages of \<^verbatim>\<open>_on_ping_receive_relation_changed\<close>: lines 98-103 and 111-120.\<close>

definition max_cycles_reached_status :: "unit_data \<Rightarrow> status" where
  "max_cycles_reached_status recv =
     ActiveStatus [Lit ''Max cycles reached. Time to completion is '',
                   FmtFloat (time_elapsed recv), Lit '' seconds.'']"

definition snapshot_status :: "unit_data \<Rightarrow> status" where
  "snapshot_status recv =
     ActiveStatus [Lit ''M: '', FmtStr (message recv), Lit '' H: '', FmtStr (next_holder recv),
                   Lit '' P: '', FmtInt (times_passed recv),
                   Lit '' R: '', FmtInt (times_received recv + 1),
                   Lit '' C: '', FmtInt (cycles_complete recv),
                   Lit '' T: '', FmtFloat2f (time_elapsed recv)]"

text \<open>
  Lines 110-139 of \<^verbatim>\<open>_on_ping_receive_relation_changed\<close>: what follows the
  \<^verbatim>\<open>if\<close> on the origin, when it has not returned.
\<close>

definition forward :: "env \<Rightarrow> unit_data \<Rightarrow> real \<Rightarrow> charm_state \<Rightarrow> result" where
  "forward e recv now s0 =
     (let s1 = sleep_delay (set_status (snapshot_status recv) s0) in
      case target e s1 of
        Inl x \<Rightarrow> Inl x
      | Inr tgt \<Rightarrow>
          run [set_message (message recv),
               set_origin (origin recv),
               set_next_holder_target0 tgt,
               (\<lambda>s. if cycles_complete (send_bucket s) \<noteq> cycles_complete recv then Inr s
                    else set_cycles_complete (cycles_complete recv) s),
               set_times_passed (times_passed recv + 1),
               set_times_received (times_received recv + 1),
               set_time_elapsed (float_add e (time_elapsed recv) (float_sub e now (timestamp recv))),
               set_timestamp now,
               (\<lambda>s. Inr (set_status (ActiveStatus []) s))] s1)"

text \<open>
  \<^verbatim>\<open>_on_ping_receive_relation_changed\<close>, lines 81-139. \<open>recv\<close> is the relation data of
  \<^verbatim>\<open>event.unit\<close>: both \<^verbatim>\<open>event.relation.data[event.unit]\<close> and the bucket
  \<^verbatim>\<open>self.i_receive.select(event.unit)\<close> read it.
\<close>

definition on_ping_receive_relation_changed ::
  "env \<Rightarrow> unit_data \<Rightarrow> real \<Rightarrow> charm_state \<Rightarrow> result" where
  "on_ping_receive_relation_changed e recv now s =
     (if k_message recv = None \<or> k_message recv = Some [] then Inr s
      else
        let c = cycles_complete recv + 1 in
        if origin recv = unit_name e then
          if max_cycles (stored s) = Some c then Inr (set_status (max_cycles_reached_status recv) s)
          else (case set_cycles_complete c s of
                  Inl x \<Rightarrow> Inl x
                | Inr s0 \<Rightarrow> forward e recv now s0)
        else (case set_cycles_complete (cycles_complete recv) s of
                Inl x \<Rightarrow> Inl x
              | Inr s0 \<Rightarrow> forward e recv now s0))"

text \<open>
  \<^verbatim>\<open>_on_ping_action\<close>, lines 141-160. \<open>token\<close> is \<^verbatim>\<open>event.params["token"]\<close>.
\<close>

definition on_ping_action :: "env \<Rightarrow> string \<Rightarrow> real \<Rightarrow> charm_state \<Rightarrow> result" where
  "on_ping_action e token now s =
     (case target e s of
        Inl x \<Rightarrow> Inl x
      | Inr tgt \<Rightarrow>
          run [set_message token,
               set_origin (unit_name e),
               set_next_holder_target0 tgt,
               set_cycles_complete 0,
               set_times_passed 1,
               set_times_received 0,
               set_time_elapsed 0,
               set_timestamp now,
               (\<lambda>s. Inr (sleep_delay s))] s)"

subsection \<open>The paths of the receive handler\<close>

text \<open>The guard of lines 84-87: the key \<^verbatim>\<open>message\<close> is absent, or its value is the empty string.\<close>

definition empty_message :: "unit_data \<Rightarrow> bool" where
  "empty_message recv = (k_message recv = None \<or> k_message recv = Some [])"

text \<open>The conditions of lines 96-97 under which the handler reports completion and returns.\<close>

definition halts :: "env \<Rightarrow> unit_data \<Rightarrow> charm_state \<Rightarrow> bool" where
  "halts e recv s =
     (\<not> empty_message recv \<and> origin recv = unit_name e
      \<and> max_cycles (stored s) = Some (cycles_complete recv + 1))"

text \<open>The forwarding path: neither the guard nor the halt.\<close>

definition forwards :: "env \<Rightarrow> unit_data \<Rightarrow> charm_state \<Rightarrow> bool" where
  "forwards e recv s = (\<not> empty_message recv \<and> \<not> halts e recv s)"

text \<open>The value lines 106 and 108 assign to \<^verbatim>\<open>send_bucket.cycles_complete\<close>.\<close>

definition cycles_complete_out :: "env \<Rightarrow> unit_data \<Rightarrow> int" where
  "cycles_complete_out e recv =
     (if origin recv = unit_name e then cycles_complete recv + 1 else cycles_complete recv)"

text \<open>The candidate peers: the list \<^verbatim>\<open>target\<close> of the two handlers, empty when there is no relation.\<close>

definition candidates :: "env \<Rightarrow> string list" where
  "candidates e =
     (case ping_send e of None \<Rightarrow> []
      | Some us \<Rightarrow> map u_name (filter (\<lambda>u. u_app u \<noteq> app_name e) us))"

text \<open>The writes a hop makes are accepted by the checkers of the bucket.\<close>

definition accepted :: "env \<Rightarrow> unit_data \<Rightarrow> real \<Rightarrow> bool" where
  "accepted e recv now =
     (candidates e \<noteq> [] \<and> 0 \<le> cycles_complete_out e recv \<and> 0 \<le> times_passed recv + 1
      \<and> 0 \<le> times_received recv + 1 \<and> 0 \<le> float_add e (time_elapsed recv) (float_sub e now (timestamp recv))
      \<and> 0 \<le> now)"

text \<open>The bucket and the trace a completed hop leaves, and the bucket a completed action leaves.\<close>

definition sent_bucket :: "env \<Rightarrow> unit_data \<Rightarrow> real \<Rightarrow> unit_data" where
  "sent_bucket e recv now =
     \<lparr>k_message = Some (message recv), k_origin = Some (origin recv),
      k_next_holder = Some (hd (candidates e)),
      k_cycles_complete = Some (cycles_complete_out e recv),
      k_times_passed = Some (times_passed recv + 1),
      k_times_received = Some (times_received recv + 1),
      k_time_elapsed = Some (float_add e (time_elapsed recv) (float_sub e now (timestamp recv))),
      k_timestamp = Some now\<rparr>"

definition sent_trace :: "unit_data \<Rightarrow> charm_state \<Rightarrow> effect list" where
  "sent_trace recv s =
     trace s @ StatusSet (snapshot_status recv)
       # (if delay (stored s) > 0 then [Sleep (delay (stored s))] else [])
       @ [StatusSet (ActiveStatus [])]"

definition injected_bucket :: "env \<Rightarrow> string \<Rightarrow> real \<Rightarrow> unit_data" where
  "injected_bucket e token now =
     \<lparr>k_message = Some token, k_origin = Some (unit_name e),
      k_next_holder = Some (hd (candidates e)),
      k_cycles_complete = Some 0, k_times_passed = Some 1, k_times_received = Some 0,
      k_time_elapsed = Some 0, k_timestamp = Some now\<rparr>"

subsection \<open>Token lineages\<close>






subsection \<open>What of the state decides a handler's outcome\<close>

text \<open>The stored configuration and the bucket of a state.\<close>

definition core :: "charm_state \<Rightarrow> storage \<times> unit_data" where
  "core s = (stored s, send_bucket s)"

text \<open>A function on states applied to the state of a result.\<close>

definition map_result :: "(charm_state \<Rightarrow> charm_state) \<Rightarrow> result \<Rightarrow> result" where
  "map_result f r = (case r of Inl (x, s) \<Rightarrow> Inl (x, f s) | Inr s \<Rightarrow> Inr (f s))"

text \<open>
  A relation between states that the primitive steps of the handlers carry along: related
  states have the same bucket and the same delay, and stay related under a bucket write,
  a status set and the sleep.
\<close>

definition compatible :: "(charm_state \<Rightarrow> charm_state \<Rightarrow> bool) \<Rightarrow> bool" where
  "compatible R =
     (\<forall>s1 s2. R s1 s2 \<longrightarrow>
        send_bucket s1 = send_bucket s2 \<and> delay (stored s1) = delay (stored s2)
        \<and> (\<forall>b. R (s1\<lparr>send_bucket := b\<rparr>) (s2\<lparr>send_bucket := b\<rparr>))
        \<and> (\<forall>st. R (set_status st s1) (set_status st s2))
        \<and> R (sleep_delay s1) (sleep_delay s2))"

text \<open>A statement that takes related states to related results: the same exception or none.\<close>

definition keeps ::
  "(charm_state \<Rightarrow> charm_state \<Rightarrow> bool) \<Rightarrow> (charm_state \<Rightarrow> result) \<Rightarrow> bool" where
  "keeps R f = (\<forall>s1 s2. R s1 s2 \<longrightarrow> rel_sum (rel_prod (=) R) R (f s1) (f s2))"

text \<open>Two states with the same stored configuration and bucket, and the same effects after the first \<open>n1\<close> and \<open>n2\<close>.\<close>

definition since :: "nat \<Rightarrow> nat \<Rightarrow> charm_state \<Rightarrow> charm_state \<Rightarrow> bool" where
  "since n1 n2 s1 s2 =
     (core s1 = core s2 \<and> n1 \<le> length (trace s1) \<and> n2 \<le> length (trace s2)
      \<and> drop n1 (trace s1) = drop n2 (trace s2))"

text \<open>
  What a handler run from \<open>s\<close> did: the exception if it raised, the stored configuration and
  the bucket it left, and the effects it added to the trace.
\<close>

definition behaviour ::
  "charm_state \<Rightarrow> result \<Rightarrow> error option \<times> (storage \<times> unit_data) \<times> effect list" where
  "behaviour s r =
     (case r of
        Inl (x, s') \<Rightarrow> (Some x, core s', drop (length (trace s)) (trace s'))
      | Inr s' \<Rightarrow> (None, core s', drop (length (trace s)) (trace s')))"

subsection \<open>A ring of two units\<close>

text \<open>
  Units \<^verbatim>\<open>a/0\<close> and \<^verbatim>\<open>b/0\<close> of two applications, each the other's only peer; and a unit
  whose relation no other unit has joined. The times of the examples are small integers,
  on which the arithmetic of doubles is exact.
\<close>

definition unit_a :: env where
  "unit_a = \<lparr>unit_name = ''a/0'', app_name = ''a'',
             ping_send = Some [\<lparr>u_name = ''b/0'', u_app = ''b''\<rparr>],
             config_max_cycles = None, config_delay = 0,
             float_add = (+), float_sub = (-)\<rparr>"

definition unit_b :: env where
  "unit_b = \<lparr>unit_name = ''b/0'', app_name = ''b'',
             ping_send = Some [\<lparr>u_name = ''a/0'', u_app = ''a''\<rparr>],
             config_max_cycles = None, config_delay = 0,
             float_add = (+), float_sub = (-)\<rparr>"

definition unit_alone :: env where
  "unit_alone = \<lparr>unit_name = ''a/0'', app_name = ''a'', ping_send = Some [],
             config_max_cycles = None, config_delay = 0,
             float_add = (+), float_sub = (-)\<rparr>"

definition no_data :: unit_data where
  "no_data = \<lparr>k_message = None, k_origin = None, k_next_holder = None,
              k_cycles_complete = None, k_times_passed = None, k_times_received = None,
              k_time_elapsed = None, k_timestamp = None\<rparr>"

definition idle :: charm_state where
  "idle = \<lparr>stored = default_storage, send_bucket = no_data, status = UnknownStatus, trace = []\<rparr>"

definition idle_max :: "int \<Rightarrow> charm_state" where
  "idle_max n = idle\<lparr>stored := \<lparr>max_cycles = Some n, delay = 0\<rparr>\<rparr>"

text \<open>The state of \<^verbatim>\<open>a/0\<close> after its action at time 10 with the token \<^verbatim>\<open>hello\<close>.\<close>

definition a_injected :: charm_state where
  "a_injected = idle\<lparr>send_bucket :=
     \<lparr>k_message = Some ''hello'', k_origin = Some ''a/0'', k_next_holder = Some ''b/0'',
      k_cycles_complete = Some 0, k_times_passed = Some 1, k_times_received = Some 0,
      k_time_elapsed = Some 0, k_timestamp = Some 10\<rparr>\<rparr>"

text \<open>The state of \<^verbatim>\<open>a/0\<close>, configured with \<open>max_cycles = 1\<close>, after it has reported completion in 5 seconds.\<close>

definition halted_a :: charm_state where
  "halted_a = (idle_max 1)\<lparr>
     status := ActiveStatus [Lit ''Max cycles reached. Time to completion is '',
                             FmtFloat 5, Lit '' seconds.''],
     trace := [StatusSet (ActiveStatus [Lit ''Max cycles reached. Time to completion is '',
                             FmtFloat 5, Lit '' seconds.''])]\<rparr>"

text \<open>A token of origin \<^verbatim>\<open>a/0\<close> as \<^verbatim>\<open>b/0\<close> writes it: passed \<open>p + 1\<close> times, \<open>c\<close> cycles complete.\<close>

definition token_from_b :: "int \<Rightarrow> int \<Rightarrow> real \<Rightarrow> real \<Rightarrow> unit_data" where
  "token_from_b c p el ts =
     \<lparr>k_message = Some ''hello'', k_origin = Some ''a/0'', k_next_holder = Some ''a/0'',
      k_cycles_complete = Some c, k_times_passed = Some (p + 1), k_times_received = Some p,
      k_time_elapsed = Some el, k_timestamp = Some ts\<rparr>"




section \<open>Properties\<close>

subsection \<open>Auxiliary facts\<close>

lemma ranges [simp]:
  "IntegerRange (Some 0) None v \<longleftrightarrow> 0 \<le> v"
  "FloatRange (Some 0) None x \<longleftrightarrow> 0 \<le> x"
  by (simp_all add: IntegerRange_def FloatRange_def)

lemmas setters = set_message_def set_origin_def set_next_holder_def set_cycles_complete_def
  set_times_passed_def set_times_received_def set_time_elapsed_def set_timestamp_def

lemmas getters = message_def origin_def next_holder_def cycles_complete_def
  times_passed_def times_received_def time_elapsed_def timestamp_def

lemmas ring = unit_a_def unit_b_def unit_alone_def no_data_def idle_def idle_max_def
  token_from_b_def default_storage_def

lemma checked_write_Inr:
  "checked_write ok upd s = Inr s' \<longleftrightarrow> ok \<and> s' = s\<lparr>send_bucket := upd (send_bucket s)\<rparr>"
  by (auto simp: checked_write_def)

lemma frame_status [simp]:
  "send_bucket (set_status st s) = send_bucket s" "stored (set_status st s) = stored s"
  "send_bucket (sleep_delay s) = send_bucket s" "stored (sleep_delay s) = stored s"
  "status (sleep_delay s) = status s" "status (set_status st s) = st"
  by (simp_all add: set_status_def sleep_delay_def)

lemma all_written:
  fixes d :: unit_data
  shows "d\<lparr>k_message := a, k_origin := b, k_next_holder := c, k_cycles_complete := n,
           k_times_passed := p, k_times_received := r, k_time_elapsed := x, k_timestamp := y\<rparr>
         = \<lparr>k_message = a, k_origin = b, k_next_holder = c, k_cycles_complete = n,
            k_times_passed = p, k_times_received = r, k_time_elapsed = x, k_timestamp = y\<rparr>"
  by (cases d) simp

lemma candidates_nonempty: "candidates e \<noteq> [] \<Longrightarrow> ping_send e \<noteq> None"
  by (auto simp: candidates_def split: option.splits)

lemma target_eq:
  "target e s = (if ping_send e = None then Inl (AttributeError, s) else Inr (candidates e))"
  by (simp add: target_def candidates_def split: option.splits)

text \<open>After a configuration change the stored values are the configured ones; nothing else changes.\<close>

lemma on_config_changed_stored:
  "on_config_changed e s
     = s\<lparr>stored := \<lparr>max_cycles = config_max_cycles e, delay = config_delay e\<rparr>\<rparr>"
  by (cases s, cases "stored s") (auto simp: on_config_changed_def Let_def)

text \<open>The handler, path by path.\<close>

lemma handler_paths:
  "on_ping_receive_relation_changed e recv now s =
     (if empty_message recv then Inr s
      else if halts e recv s then Inr (set_status (max_cycles_reached_status recv) s)
      else case set_cycles_complete (cycles_complete_out e recv) s of
             Inl x \<Rightarrow> Inl x | Inr s0 \<Rightarrow> forward e recv now s0)"
  by (simp add: on_ping_receive_relation_changed_def empty_message_def halts_def
      cycles_complete_out_def Let_def)

text \<open>A hop that completes leaves exactly one state, and completes exactly when its writes are accepted.\<close>

lemma forward_Inr:
  assumes "forward e recv now s0 = Inr s'"
  shows "ping_send e \<noteq> None \<and> candidates e \<noteq> []
           \<and> s' = s0\<lparr>send_bucket := (send_bucket s0)\<lparr>
                     k_message := Some (message recv), k_origin := Some (origin recv),
                     k_next_holder := Some (hd (candidates e)),
                     k_cycles_complete :=
                       (if cycles_complete (send_bucket s0) \<noteq> cycles_complete recv
                        then k_cycles_complete (send_bucket s0) else Some (cycles_complete recv)),
                     k_times_passed := Some (times_passed recv + 1),
                     k_times_received := Some (times_received recv + 1),
                     k_time_elapsed := Some (float_add e (time_elapsed recv) (float_sub e now (timestamp recv))),
                     k_timestamp := Some now\<rparr>,
                   status := ActiveStatus [],
                   trace := sent_trace recv s0\<rparr>"
proof -
  from assms have n: "ping_send e \<noteq> None"
    by (auto simp: forward_def Let_def target_eq split: if_splits)
  from assms n obtain t ts where t: "candidates e = t # ts"
    by (cases "candidates e")
      (auto simp: forward_def Let_def target_eq set_next_holder_target0_def setters
        checked_write_def)
  from assms n t show ?thesis
    by (auto simp: forward_def Let_def target_eq set_next_holder_target0_def setters
        checked_write_def set_status_def sleep_delay_def sent_trace_def cycles_complete_def
        split: if_splits)
qed

lemma forwards_Inr:
  assumes "forwards e recv s" and "on_ping_receive_relation_changed e recv now s = Inr s'"
  shows "s' = s\<lparr>send_bucket := sent_bucket e recv now, status := ActiveStatus [],
                trace := sent_trace recv s\<rparr>"
proof -
  from assms obtain s0 where w: "set_cycles_complete (cycles_complete_out e recv) s = Inr s0"
    and f: "forward e recv now s0 = Inr s'"
    by (auto simp: handler_paths forwards_def split: sum.splits)
  from w have s0: "s0 = s\<lparr>send_bucket := (send_bucket s)\<lparr>k_cycles_complete := Some (cycles_complete_out e recv)\<rparr>\<rparr>"
    by (simp add: set_cycles_complete_def checked_write_Inr)
  from forward_Inr [OF f] show ?thesis
    by (simp add: s0 sent_trace_def sent_bucket_def cycles_complete_def cycles_complete_out_def)
qed

lemma forwards_accepted:
  assumes "forwards e recv s" and "on_ping_receive_relation_changed e recv now s = Inr s'"
  shows "accepted e recv now"
proof -
  from assms obtain s0 where w: "set_cycles_complete (cycles_complete_out e recv) s = Inr s0"
    and f: "forward e recv now s0 = Inr s'"
    by (auto simp: handler_paths forwards_def split: sum.splits)
  from w have c: "0 \<le> cycles_complete_out e recv"
    by (simp add: set_cycles_complete_def checked_write_Inr)
  from forward_Inr [OF f] have n: "ping_send e \<noteq> None" "candidates e \<noteq> []"
    by simp_all
  then obtain t ts where t: "candidates e = t # ts"
    by (cases "candidates e") auto
  from f n t have "0 \<le> times_passed recv + 1 \<and> 0 \<le> times_received recv + 1
      \<and> 0 \<le> float_add e (time_elapsed recv) (float_sub e now (timestamp recv)) \<and> 0 \<le> now"
    by (simp add: forward_def Let_def target_eq set_next_holder_target0_def setters
        checked_write_def split: if_splits)
  with c n show ?thesis
    by (simp add: accepted_def)
qed

lemma forwards_ok:
  assumes "forwards e recv s" and "accepted e recv now"
  shows "\<exists>s'. on_ping_receive_relation_changed e recv now s = Inr s'"
proof -
  from assms(2) obtain t ts where c: "candidates e = t # ts"
    by (cases "candidates e") (auto simp: accepted_def)
  then have "ping_send e \<noteq> None"
    using candidates_nonempty [of e] by simp
  with c assms show ?thesis
    by (simp add: handler_paths forwards_def accepted_def forward_def Let_def target_eq
        set_next_holder_target0_def setters checked_write_def cycles_complete_out_def
        cycles_complete_def)
qed

lemma forwards_iff:
  assumes "forwards e recv s"
  shows "on_ping_receive_relation_changed e recv now s = Inr s' \<longleftrightarrow>
           accepted e recv now
           \<and> s' = s\<lparr>send_bucket := sent_bucket e recv now, status := ActiveStatus [],
                     trace := sent_trace recv s\<rparr>"
  using assms forwards_Inr forwards_accepted forwards_ok by metis

lemma on_ping_action_Inr:
  "on_ping_action e token now s = Inr s' \<longleftrightarrow>
     candidates e \<noteq> [] \<and> 0 \<le> now
     \<and> s' = sleep_delay (s\<lparr>send_bucket := injected_bucket e token now\<rparr>)"
proof (cases "candidates e")
  case Nil
  then show ?thesis
    by (simp add: on_ping_action_def target_eq set_next_holder_target0_def setters
        checked_write_def)
next
  case (Cons t ts)
  then have "ping_send e \<noteq> None"
    using candidates_nonempty [of e] by simp
  with Cons show ?thesis
    by (auto simp: on_ping_action_def target_eq set_next_holder_target0_def setters
        checked_write_def injected_bucket_def all_written)
qed

subsection \<open>The guard\<close>

text \<open>
  Claim C5. An arrival whose relation data has no key \<^verbatim>\<open>message\<close>, or has the empty
  string under it, is a no-op: the handler returns without raising, and the state it
  returns is the state it was given, with the same bucket, stored configuration, status
  and trace of effects.
\<close>

theorem empty_message_noop:
  assumes "k_message recv = None \<or> k_message recv = Some []"
  shows "on_ping_receive_relation_changed e recv now s = Inr s"
  using assms by (simp add: on_ping_receive_relation_changed_def)

theorem empty_message_noop_witness:
  "k_message no_data = None
   \<and> on_ping_receive_relation_changed unit_b no_data 5 idle = Inr idle
   \<and> k_message (no_data\<lparr>k_message := Some []\<rparr>) = Some []
   \<and> on_ping_receive_relation_changed unit_b (no_data\<lparr>k_message := Some []\<rparr>) 5 idle = Inr idle"
  using empty_message_noop [of no_data unit_b 5 idle]
    empty_message_noop [of "no_data\<lparr>k_message := Some []\<rparr>" unit_b 5 idle]
  by (simp add: no_data_def)

subsection \<open>The halt\<close>

text \<open>
  Claim C1. When a token with a non-empty message is received at its origin and
  \<open>cycles_complete + 1\<close> is the stored \<open>max_cycles\<close>, the handler returns without
  raising, the bucket and the stored configuration are those of the state before (no
  write, so nothing is forwarded), and the only effect is one status set to the completion
  message that carries the received \<open>time_elapsed\<close>.
\<close>

theorem halt_reports_and_keeps_bucket:
  assumes "k_message recv = Some m" and "m \<noteq> []"
    and "origin recv = unit_name e"
    and "max_cycles (stored s) = Some (cycles_complete recv + 1)"
  shows "\<exists>s'. on_ping_receive_relation_changed e recv now s = Inr s'
           \<and> send_bucket s' = send_bucket s
           \<and> stored s' = stored s
           \<and> status s' = ActiveStatus [Lit ''Max cycles reached. Time to completion is '',
                                        FmtFloat (time_elapsed recv), Lit '' seconds.'']
           \<and> trace s' = trace s @ [StatusSet (status s')]"
  using assms
  by (simp add: on_ping_receive_relation_changed_def set_status_def
      max_cycles_reached_status_def)

theorem halt_reports_and_keeps_bucket_witness:
  "k_message (token_from_b 0 1 5 15) = Some ''hello'' \<and> ''hello'' \<noteq> []
   \<and> origin (token_from_b 0 1 5 15) = unit_name unit_a
   \<and> max_cycles (stored (idle_max 1)) = Some (cycles_complete (token_from_b 0 1 5 15) + 1)
   \<and> on_ping_receive_relation_changed unit_a (token_from_b 0 1 5 15) 20 (idle_max 1)
       = Inr ((idle_max 1)\<lparr>status := ActiveStatus [Lit ''Max cycles reached. Time to completion is '',
                                        FmtFloat 5, Lit '' seconds.''],
                trace := [StatusSet (ActiveStatus [Lit ''Max cycles reached. Time to completion is '',
                                        FmtFloat 5, Lit '' seconds.''])]\<rparr>)"
  using halt_reports_and_keeps_bucket [of "token_from_b 0 1 5 15" "''hello''" unit_a "idle_max 1" 20]
  by (auto simp: ring getters)

lemma sent_bucket_fields [simp]:
  "message (sent_bucket e recv now) = message recv"
  "origin (sent_bucket e recv now) = origin recv"
  "next_holder (sent_bucket e recv now) = hd (candidates e)"
  "cycles_complete (sent_bucket e recv now) = cycles_complete_out e recv"
  "times_passed (sent_bucket e recv now) = times_passed recv + 1"
  "times_received (sent_bucket e recv now) = times_received recv + 1"
  "time_elapsed (sent_bucket e recv now) = float_add e (time_elapsed recv) (float_sub e now (timestamp recv))"
  "timestamp (sent_bucket e recv now) = now"
  by (simp_all add: sent_bucket_def getters)








lemma hop_total:
  assumes "forwards e recv s" and "accepted e recv now"
  shows "\<exists>s'. on_ping_receive_relation_changed e recv now s = Inr s'
           \<and> send_bucket s' = sent_bucket e recv now"
  using assms by (simp add: forwards_iff)

subsection \<open>The action\<close>

text \<open>
  Claim C6. When the candidate list is not empty (its first name is \<open>t\<close>) and the clock
  reads an epoch time \<open>0 \<le> now\<close>, which is what the checker of \<open>timestamp\<close> admits, the
  action completes and the bucket of the unit then holds: \<open>message\<close> the action's
  \<open>token\<close> parameter, \<open>origin\<close> the unit's own name, \<open>next_holder = t\<close>,
  \<open>cycles_complete = 0\<close>, \<open>times_passed = 1\<close>, \<open>times_received = 0\<close>,
  \<open>time_elapsed = 0\<close> and \<open>timestamp = now\<close>.
\<close>

theorem inject_writes_token:
  assumes "candidates e = t # ts" and "0 \<le> now"
  shows "\<exists>s'. on_ping_action e token now s = Inr s'
           \<and> send_bucket s' =
               \<lparr>k_message = Some token, k_origin = Some (unit_name e), k_next_holder = Some t,
                k_cycles_complete = Some 0, k_times_passed = Some 1, k_times_received = Some 0,
                k_time_elapsed = Some 0, k_timestamp = Some now\<rparr>"
  using assms by (simp add: on_ping_action_Inr injected_bucket_def)

theorem inject_writes_token_witness:
  "candidates unit_a = [''b/0''] \<and> (0::real) \<le> 10
   \<and> on_ping_action unit_a ''hello'' 10 idle = Inr a_injected"
  using inject_writes_token [of unit_a "''b/0''" "[]" 10 "''hello''" idle]
  by (auto simp: candidates_def ring a_injected_def on_ping_action_Inr injected_bucket_def sleep_delay_def)


lemma ring_forwards_b: "forwards unit_b (send_bucket a_injected) idle"
  by (simp add: forwards_def halts_def empty_message_def a_injected_def ring)

lemma ring_hop_b:
  "on_ping_receive_relation_changed unit_b (send_bucket a_injected) 15 idle
     = Inr (idle\<lparr>send_bucket := token_from_b 0 1 5 15, status := ActiveStatus [],
              trace := [StatusSet (snapshot_status (send_bucket a_injected)),
                        StatusSet (ActiveStatus [])]\<rparr>)"
  unfolding forwards_iff [OF ring_forwards_b]
  by (simp add: accepted_def candidates_def cycles_complete_out_def
      sent_bucket_def sent_trace_def a_injected_def ring getters)

lemma ring_forwards_a: "forwards unit_a (token_from_b 0 1 el ts) a_injected"
  by (simp add: forwards_def halts_def empty_message_def a_injected_def ring)

lemma ring_hop_a:
  assumes "0 \<le> el + (now - ts)" and "0 \<le> now"
  shows "on_ping_receive_relation_changed unit_a (token_from_b 0 1 el ts) now a_injected
     = Inr (a_injected\<lparr>send_bucket :=
                (token_from_b 1 2 (el + (now - ts)) now)\<lparr>k_next_holder := Some ''b/0''\<rparr>,
              status := ActiveStatus [],
              trace := [StatusSet (snapshot_status (token_from_b 0 1 el ts)),
                        StatusSet (ActiveStatus [])]\<rparr>)"
  unfolding forwards_iff [OF ring_forwards_a]
  using assms
  by (simp add: accepted_def candidates_def cycles_complete_out_def
      sent_bucket_def sent_trace_def a_injected_def ring getters)


lemma ring_accepted_b: "accepted unit_b (send_bucket a_injected) 15"
  by (simp add: accepted_def candidates_def cycles_complete_out_def a_injected_def ring getters)

lemma ring_accepted_a:
  assumes "0 \<le> el + (now - ts)" and "0 \<le> now"
  shows "accepted unit_a (token_from_b 0 1 el ts) now"
  using assms
  by (simp add: accepted_def candidates_def cycles_complete_out_def ring getters)






subsection \<open>The counters of a token\<close>




text \<open>
  Claim C3. A hop on the forwarding path whose writes are accepted completes, and
  \<open>cycles_complete\<close> of the token it writes is at least that of the token received; it is
  the received value plus one exactly when the origin of the received token is the unit
  itself, and the received value exactly when it is not.
\<close>

theorem cycles_complete_hop:
  assumes "forwards e recv s" and "accepted e recv now"
  shows "\<exists>s'. on_ping_receive_relation_changed e recv now s = Inr s'
         \<and> cycles_complete recv \<le> cycles_complete (send_bucket s')
         \<and> (cycles_complete (send_bucket s') = cycles_complete recv + 1
              \<longleftrightarrow> origin recv = unit_name e)
         \<and> (cycles_complete (send_bucket s') = cycles_complete recv
              \<longleftrightarrow> origin recv \<noteq> unit_name e)"
proof -
  from hop_total [OF assms] obtain s' where
    "on_ping_receive_relation_changed e recv now s = Inr s'"
    and "send_bucket s' = sent_bucket e recv now"
    by blast
  then show ?thesis
    by (simp add: cycles_complete_out_def)
qed

theorem cycles_complete_hop_witness:
  "forwards unit_b (send_bucket a_injected) idle
   \<and> accepted unit_b (send_bucket a_injected) 15
   \<and> on_ping_receive_relation_changed unit_b (send_bucket a_injected) 15 idle
       = Inr (idle\<lparr>send_bucket := token_from_b 0 1 5 15, status := ActiveStatus [],
                trace := [StatusSet (snapshot_status (send_bucket a_injected)),
                          StatusSet (ActiveStatus [])]\<rparr>)
   \<and> origin (send_bucket a_injected) \<noteq> unit_name unit_b
   \<and> cycles_complete (send_bucket a_injected) = 0 \<and> cycles_complete (token_from_b 0 1 5 15) = 0
   \<and> forwards unit_a (token_from_b 0 1 5 15) a_injected
   \<and> accepted unit_a (token_from_b 0 1 5 15) 22
   \<and> on_ping_receive_relation_changed unit_a (token_from_b 0 1 5 15) 22 a_injected
       = Inr (a_injected\<lparr>send_bucket := (token_from_b 1 2 12 22)\<lparr>k_next_holder := Some ''b/0''\<rparr>,
                status := ActiveStatus [],
                trace := [StatusSet (snapshot_status (token_from_b 0 1 5 15)),
                          StatusSet (ActiveStatus [])]\<rparr>)
   \<and> origin (token_from_b 0 1 5 15) = unit_name unit_a
   \<and> cycles_complete (token_from_b 1 2 12 22) = cycles_complete (token_from_b 0 1 5 15) + 1"
  using ring_forwards_b ring_accepted_b ring_hop_b ring_forwards_a [of 5 15]
    ring_accepted_a [of 5 22 15] ring_hop_a [of 5 22 15]
    cycles_complete_hop [OF ring_forwards_b ring_accepted_b]
    cycles_complete_hop [OF ring_forwards_a [of 5 15] ring_accepted_a [of 5 22 15]]
  by (simp add: a_injected_def token_from_b_def unit_a_def unit_b_def getters)

subsection \<open>Elapsed time\<close>




subsection \<open>No peer to forward to\<close>






subsection \<open>The status\<close>

text \<open>
  Claim C8 says that the snapshot of the received token is the status that remains when
  the handler completes. Line 139 sets the status to \<^verbatim>\<open>ActiveStatus()\<close> last, so the
  status that remains has an empty message: seen here at the hop of \<^verbatim>\<open>b/0\<close>.
\<close>

theorem status_counterexample:
  "forwards unit_b (send_bucket a_injected) idle
   \<and> on_ping_receive_relation_changed unit_b (send_bucket a_injected) 15 idle
       = Inr (idle\<lparr>send_bucket := token_from_b 0 1 5 15, status := ActiveStatus [],
                trace := [StatusSet (snapshot_status (send_bucket a_injected)),
                          StatusSet (ActiveStatus [])]\<rparr>)
   \<and> status (idle\<lparr>send_bucket := token_from_b 0 1 5 15, status := ActiveStatus [],
                trace := [StatusSet (snapshot_status (send_bucket a_injected)),
                          StatusSet (ActiveStatus [])]\<rparr>) = ActiveStatus []
   \<and> snapshot_status (send_bucket a_injected) \<noteq> ActiveStatus []"
  using ring_forwards_b ring_hop_b by (simp add: snapshot_status_def)

text \<open>
  Claim C8, amended. A hop that forwards sets the status twice: first to the snapshot of
  the received token, with its \<open>message\<close>, \<open>next_holder\<close>, \<open>times_passed\<close>,
  \<open>times_received + 1\<close>, \<open>cycles_complete\<close> and \<open>time_elapsed\<close> with two decimals;
  then, after the delay and the writes, to the active status with an empty message,
  which is the status that remains when the handler completes.
\<close>

theorem status_after_hop:
  assumes "forwards e recv s" and "on_ping_receive_relation_changed e recv now s = Inr s'"
  shows "status s' = ActiveStatus []
       \<and> trace s' = trace s
           @ StatusSet (ActiveStatus
               [Lit ''M: '', FmtStr (message recv), Lit '' H: '', FmtStr (next_holder recv),
                Lit '' P: '', FmtInt (times_passed recv),
                Lit '' R: '', FmtInt (times_received recv + 1),
                Lit '' C: '', FmtInt (cycles_complete recv),
                Lit '' T: '', FmtFloat2f (time_elapsed recv)])
           # (if 0 < delay (stored s) then [Sleep (delay (stored s))] else [])
           @ [StatusSet (ActiveStatus [])]"
  using forwards_Inr [OF assms] by (simp add: sent_trace_def snapshot_status_def)

theorem status_after_hop_witness:
  "forwards unit_b (send_bucket a_injected) idle
   \<and> on_ping_receive_relation_changed unit_b (send_bucket a_injected) 15 idle
       = Inr (idle\<lparr>send_bucket := token_from_b 0 1 5 15, status := ActiveStatus [],
                trace := [StatusSet (ActiveStatus
                   [Lit ''M: '', FmtStr ''hello'', Lit '' H: '', FmtStr ''b/0'',
                    Lit '' P: '', FmtInt 1, Lit '' R: '', FmtInt 1, Lit '' C: '', FmtInt 0,
                    Lit '' T: '', FmtFloat2f 0]),
                          StatusSet (ActiveStatus [])]\<rparr>)"
  using ring_forwards_b ring_hop_b status_after_hop [OF ring_forwards_b ring_hop_b]
  by (simp add: snapshot_status_def a_injected_def getters)

subsection \<open>What the halt leaves behind, and a limit of zero\<close>

text \<open>Statements of the handlers carry related states to related results.\<close>

lemma keepsD:
  "keeps R f \<Longrightarrow> R s1 s2 \<Longrightarrow> rel_sum (rel_prod (=) R) R (f s1) (f s2)"
  by (simp add: keeps_def)

lemma keeps_run:
  assumes "\<forall>f\<in>set fs. keeps R f"
  shows "keeps R (run fs)"
  using assms
proof (induction fs)
  case Nil
  then show ?case by (simp add: keeps_def)
next
  case (Cons f fs)
  then have f: "keeps R f" and fs: "keeps R (run fs)"
    by simp_all
  show ?case
    unfolding keeps_def
  proof (intro allI impI)
    fix s1 s2
    assume "R s1 s2"
    with f have "rel_sum (rel_prod (=) R) R (f s1) (f s2)"
      by (rule keepsD)
    then show "rel_sum (rel_prod (=) R) R (run (f # fs) s1) (run (f # fs) s2)"
      using fs by (cases rule: rel_sum.cases) (auto dest: keepsD)
  qed
qed

lemma keeps_checked_write:
  "compatible R \<Longrightarrow> keeps R (checked_write ok upd)"
  by (simp add: compatible_def keeps_def checked_write_def)

lemma keeps_pure:
  assumes "\<And>s1 s2. R s1 s2 \<Longrightarrow> R (g s1) (g s2)"
  shows "keeps R (\<lambda>s. Inr (g s))"
  using assms by (simp add: keeps_def)

lemma keeps_target0:
  "compatible R \<Longrightarrow> keeps R (set_next_holder_target0 tgt)"
  using keeps_checked_write [of R]
  by (cases tgt) (simp_all add: set_next_holder_target0_def set_next_holder_def keeps_def)

lemma keeps_line_128:
  assumes "compatible R"
  shows "keeps R (\<lambda>s. if cycles_complete (send_bucket s) \<noteq> c then Inr s
                          else set_cycles_complete c s)"
  using assms keeps_checked_write [OF assms]
  by (auto simp: keeps_def compatible_def set_cycles_complete_def)

lemma keeps_forward:
  assumes "compatible R"
  shows "keeps R (forward e recv now)"
  unfolding keeps_def
proof (intro allI impI)
  fix s1 s2
  assume r: "R s1 s2"
  let ?t1 = "sleep_delay (set_status (snapshot_status recv) s1)"
  let ?t2 = "sleep_delay (set_status (snapshot_status recv) s2)"
  from assms r have t: "R ?t1 ?t2"
    by (simp add: compatible_def)
  show "rel_sum (rel_prod (=) R) R (forward e recv now s1) (forward e recv now s2)"
  proof (cases "ping_send e")
    case None
    with t show ?thesis
      by (simp add: forward_def Let_def target_eq)
  next
    case (Some us)
    have "keeps R (run [set_message (message recv), set_origin (origin recv),
               set_next_holder_target0 (candidates e),
               (\<lambda>s. if cycles_complete (send_bucket s) \<noteq> cycles_complete recv then Inr s
                    else set_cycles_complete (cycles_complete recv) s),
               set_times_passed (times_passed recv + 1),
               set_times_received (times_received recv + 1),
               set_time_elapsed (float_add e (time_elapsed recv) (float_sub e now (timestamp recv))),
               set_timestamp now,
               (\<lambda>s. Inr (set_status (ActiveStatus []) s))])"
      using assms
      by (intro keeps_run)
        (simp add: setters keeps_checked_write keeps_target0 keeps_line_128
          keeps_pure compatible_def)
    from keepsD [OF this t] Some show ?thesis
      by (simp add: forward_def Let_def target_eq)
  qed
qed

lemma keeps_action:
  assumes "compatible R"
  shows "keeps R (on_ping_action e token now)"
  unfolding keeps_def
proof (intro allI impI)
  fix s1 s2
  assume r: "R s1 s2"
  show "rel_sum (rel_prod (=) R) R (on_ping_action e token now s1) (on_ping_action e token now s2)"
  proof (cases "ping_send e")
    case None
    with r show ?thesis
      by (simp add: on_ping_action_def target_eq)
  next
    case (Some us)
    have "keeps R (run [set_message token, set_origin (unit_name e),
               set_next_holder_target0 (candidates e), set_cycles_complete 0,
               set_times_passed 1, set_times_received 0, set_time_elapsed 0,
               set_timestamp now, (\<lambda>s. Inr (sleep_delay s))])"
      using assms
      by (intro keeps_run)
        (simp add: setters keeps_checked_write keeps_target0 keeps_pure compatible_def)
    from keepsD [OF this r] Some show ?thesis
      by (simp add: on_ping_action_def target_eq)
  qed
qed

lemma handler_related:
  assumes c: "compatible R" and r: "R s1 s2" and h: "halts e recv s1 = halts e recv s2"
  shows "rel_sum (rel_prod (=) R) R (on_ping_receive_relation_changed e recv now s1)
           (on_ping_receive_relation_changed e recv now s2)"
proof -
  have w: "rel_sum (rel_prod (=) R) R (set_cycles_complete (cycles_complete_out e recv) s1)
             (set_cycles_complete (cycles_complete_out e recv) s2)"
    using keeps_checked_write [OF c] r
    by (simp add: set_cycles_complete_def keeps_def)
  have "rel_sum (rel_prod (=) R) R
      (case set_cycles_complete (cycles_complete_out e recv) s1 of
         Inl x \<Rightarrow> Inl x | Inr s0 \<Rightarrow> forward e recv now s0)
      (case set_cycles_complete (cycles_complete_out e recv) s2 of
         Inl x \<Rightarrow> Inl x | Inr s0 \<Rightarrow> forward e recv now s0)"
    using w keeps_forward [OF c, of e recv now]
    by (cases rule: rel_sum.cases) (auto dest: keepsD)
  with c r h show ?thesis
    by (simp add: handler_paths compatible_def)
qed

lemma compatible_since: "compatible (since n1 n2)"
  by (auto simp: compatible_def since_def core_def set_status_def sleep_delay_def)

lemma compatible_max_cycles:
  "compatible (\<lambda>s1 s2. s1 = s2\<lparr>stored := (stored s2)\<lparr>max_cycles := m\<rparr>\<rparr>)"
  by (auto simp: compatible_def set_status_def sleep_delay_def)

lemma since_behaviour:
  assumes "rel_sum (rel_prod (=) (since (length (trace s1)) (length (trace s2))))
             (since (length (trace s1)) (length (trace s2))) r1 r2"
  shows "behaviour s1 r1 = behaviour s2 r2"
  using assms by (cases rule: rel_sum.cases) (auto simp: behaviour_def since_def)

lemma max_cycles_map_result:
  assumes "rel_sum (rel_prod (=) (\<lambda>s1 s2. s1 = g s2)) (\<lambda>s1 s2. s1 = g s2) r1 r2"
  shows "r1 = map_result g r2"
  using assms by (cases rule: rel_sum.cases) (auto simp: map_result_def)


text \<open>
  Claim C9. The halt branch returns a state whose stored configuration and bucket are
  those of the state before: it sets the status and nothing else. Every later event, an
  action or an arrival, is then handled from that state as it is from the state before
  the halt: it raises or completes alike, leaves the same stored configuration and the
  same bucket (so it writes and forwards the same token), and has the same effects.
\<close>

theorem halt_leaves_no_mark:
  assumes "halts e recv s"
  shows "\<exists>h. on_ping_receive_relation_changed e recv now s = Inr h
           \<and> stored h = stored s \<and> send_bucket h = send_bucket s
           \<and> (\<forall>e' token now'.
                 behaviour h (on_ping_action e' token now' h)
                   = behaviour s (on_ping_action e' token now' s))
           \<and> (\<forall>e' recv' now'.
                 behaviour h (on_ping_receive_relation_changed e' recv' now' h)
                   = behaviour s (on_ping_receive_relation_changed e' recv' now' s))"
proof -
  let ?h = "set_status (max_cycles_reached_status recv) s"
  from assms have 1: "on_ping_receive_relation_changed e recv now s = Inr ?h"
    by (simp add: handler_paths halts_def)
  have r: "since (length (trace ?h)) (length (trace s)) ?h s"
    by (simp add: since_def core_def set_status_def)
  have 2: "behaviour ?h (on_ping_action e' token now' ?h)
             = behaviour s (on_ping_action e' token now' s)" for e' token now'
    using keepsD [OF keeps_action [OF compatible_since] r]
    by (rule since_behaviour)
  have "halts e' recv' ?h = halts e' recv' s" for e' recv'
    by (simp add: halts_def)
  then have 3: "behaviour ?h (on_ping_receive_relation_changed e' recv' now' ?h)
             = behaviour s (on_ping_receive_relation_changed e' recv' now' s)" for e' recv' now'
    using handler_related [OF compatible_since r]
    by (intro since_behaviour) simp
  from 1 2 3 show ?thesis
    by simp
qed

theorem halt_leaves_no_mark_witness:
  "halts unit_a (token_from_b 0 1 5 15) (idle_max 1)
   \<and> on_ping_receive_relation_changed unit_a (token_from_b 0 1 5 15) 20 (idle_max 1)
       = Inr halted_a
   \<and> stored halted_a = stored (idle_max 1) \<and> send_bucket halted_a = send_bucket (idle_max 1)
   \<and> on_ping_action unit_a ''hello'' 30 halted_a
       = Inr (halted_a\<lparr>send_bucket := (send_bucket a_injected)\<lparr>k_timestamp := Some 30\<rparr>\<rparr>)
   \<and> behaviour halted_a (on_ping_action unit_a ''hello'' 30 halted_a)
       = behaviour (idle_max 1) (on_ping_action unit_a ''hello'' 30 (idle_max 1))"
proof -
  have h: "halts unit_a (token_from_b 0 1 5 15) (idle_max 1)"
    by (simp add: halts_def empty_message_def ring getters)
  have 1: "on_ping_receive_relation_changed unit_a (token_from_b 0 1 5 15) 20 (idle_max 1)
       = Inr halted_a"
    by (simp add: on_ping_receive_relation_changed_def halted_a_def set_status_def
        max_cycles_reached_status_def ring getters)
  have 2: "on_ping_action unit_a ''hello'' 30 halted_a
       = Inr (halted_a\<lparr>send_bucket := (send_bucket a_injected)\<lparr>k_timestamp := Some 30\<rparr>\<rparr>)"
    by (simp add: on_ping_action_Inr candidates_def ring a_injected_def injected_bucket_def
        sleep_delay_def halted_a_def)
  from halt_leaves_no_mark [OF h, of 20] 1
  have 3: "stored halted_a = stored (idle_max 1) \<and> send_bucket halted_a = send_bucket (idle_max 1)"
    and 4: "\<forall>e' token now'.
             behaviour halted_a (on_ping_action e' token now' halted_a)
               = behaviour (idle_max 1) (on_ping_action e' token now' (idle_max 1))"
    by simp_all
  from 4 have "behaviour halted_a (on_ping_action unit_a ''hello'' 30 halted_a)
       = behaviour (idle_max 1) (on_ping_action unit_a ''hello'' 30 (idle_max 1))"
    by blast
  with h 1 2 3 show ?thesis
    by blast
qed

text \<open>
  Claim C10. For a received token whose \<open>cycles_complete\<close> is not negative, a stored
  \<open>max_cycles\<close> of 0 never takes the halt branch, and the handler then does what it
  does with \<open>max_cycles\<close> unset: the same result, but for the stored value itself.
\<close>

theorem max_cycles_zero_never_halts:
  assumes "0 \<le> cycles_complete recv"
  shows "\<not> halts e recv (s\<lparr>stored := (stored s)\<lparr>max_cycles := Some 0\<rparr>\<rparr>)
       \<and> on_ping_receive_relation_changed e recv now (s\<lparr>stored := (stored s)\<lparr>max_cycles := Some 0\<rparr>\<rparr>)
           = map_result (\<lambda>t. t\<lparr>stored := (stored t)\<lparr>max_cycles := Some 0\<rparr>\<rparr>)
               (on_ping_receive_relation_changed e recv now
                  (s\<lparr>stored := (stored s)\<lparr>max_cycles := None\<rparr>\<rparr>))"
proof
  from assms show n: "\<not> halts e recv (s\<lparr>stored := (stored s)\<lparr>max_cycles := Some 0\<rparr>\<rparr>)"
    by (simp add: halts_def)
  have "\<not> halts e recv (s\<lparr>stored := (stored s)\<lparr>max_cycles := None\<rparr>\<rparr>)"
    by (simp add: halts_def)
  with n have "halts e recv (s\<lparr>stored := (stored s)\<lparr>max_cycles := Some 0\<rparr>\<rparr>)
      = halts e recv (s\<lparr>stored := (stored s)\<lparr>max_cycles := None\<rparr>\<rparr>)"
    by simp
  then show "on_ping_receive_relation_changed e recv now (s\<lparr>stored := (stored s)\<lparr>max_cycles := Some 0\<rparr>\<rparr>)
           = map_result (\<lambda>t. t\<lparr>stored := (stored t)\<lparr>max_cycles := Some 0\<rparr>\<rparr>)
               (on_ping_receive_relation_changed e recv now
                  (s\<lparr>stored := (stored s)\<lparr>max_cycles := None\<rparr>\<rparr>))"
    by (intro max_cycles_map_result handler_related compatible_max_cycles) simp_all
qed

theorem max_cycles_zero_never_halts_witness:
  "0 \<le> cycles_complete (token_from_b 0 1 5 15)
   \<and> \<not> halts unit_a (token_from_b 0 1 5 15) (idle_max 0)
   \<and> on_ping_receive_relation_changed unit_a (token_from_b 0 1 5 15) 22 (idle_max 0)
       = Inr ((idle_max 0)\<lparr>send_bucket :=
                  (token_from_b 1 2 12 22)\<lparr>k_next_holder := Some ''b/0''\<rparr>,
                status := ActiveStatus [],
                trace := [StatusSet (snapshot_status (token_from_b 0 1 5 15)),
                          StatusSet (ActiveStatus [])]\<rparr>)
   \<and> on_ping_receive_relation_changed unit_a (token_from_b 0 1 5 15) 22 idle
       = Inr (idle\<lparr>send_bucket :=
                  (token_from_b 1 2 12 22)\<lparr>k_next_holder := Some ''b/0''\<rparr>,
                status := ActiveStatus [],
                trace := [StatusSet (snapshot_status (token_from_b 0 1 5 15)),
                          StatusSet (ActiveStatus [])]\<rparr>)"
proof -
  have f: "forwards unit_a (token_from_b 0 1 5 15) idle"
    by (simp add: forwards_def halts_def empty_message_def ring)
  have 1: "on_ping_receive_relation_changed unit_a (token_from_b 0 1 5 15) 22 idle
       = Inr (idle\<lparr>send_bucket :=
                  (token_from_b 1 2 12 22)\<lparr>k_next_holder := Some ''b/0''\<rparr>,
                status := ActiveStatus [],
                trace := [StatusSet (snapshot_status (token_from_b 0 1 5 15)),
                          StatusSet (ActiveStatus [])]\<rparr>)"
    unfolding forwards_iff [OF f]
    by (simp add: accepted_def candidates_def cycles_complete_out_def
        sent_bucket_def sent_trace_def ring getters)
  have i: "idle_max 0 = idle\<lparr>stored := (stored idle)\<lparr>max_cycles := Some 0\<rparr>\<rparr>"
    "idle = idle\<lparr>stored := (stored idle)\<lparr>max_cycles := None\<rparr>\<rparr>"
    by (simp_all add: ring)
  have c: "0 \<le> cycles_complete (token_from_b 0 1 5 15)"
    by (simp add: token_from_b_def cycles_complete_def)
  from max_cycles_zero_never_halts [OF c, of unit_a idle 22] 1 c i show ?thesis
    by (simp add: map_result_def)
qed

end
